theory Spec2Isabelle
  imports Complex_Main
begin

section \<open>JavaScript numbers\<close>

text \<open>
  The component computes with JavaScript numbers. Timestamps, tempi and gains are modelled
  as exact rationals; the one non-finite value the code can produce is the positive
  infinity of a division by zero (\<^verbatim>\<open>60 / tempo\<close>, \<^verbatim>\<open>60000 / averageInterval\<close>), which
  HOL's total division would silently turn into 0. Rounding errors of IEEE doubles are
  not modelled.
\<close>

datatype jsnum = Fin rat | Infinity

text \<open>\<^verbatim>\<open>a / b\<close> for a positive numerator (the source divides the constants 60 and 60000).\<close>

definition js_div :: "rat \<Rightarrow> rat \<Rightarrow> jsnum" where
  "js_div a b = (if b = 0 then Infinity else Fin (a / b))"

text \<open>\<^verbatim>\<open>x * k\<close> for a positive finite factor.\<close>

definition js_mul :: "jsnum \<Rightarrow> rat \<Rightarrow> jsnum" where
  "js_mul x k = (case x of Fin r \<Rightarrow> Fin (r * k) | Infinity \<Rightarrow> Infinity)"

definition js_max :: "jsnum \<Rightarrow> rat \<Rightarrow> jsnum" where
  "js_max x k = (case x of Fin r \<Rightarrow> Fin (max r k) | Infinity \<Rightarrow> Infinity)"

definition js_min :: "jsnum \<Rightarrow> rat \<Rightarrow> rat" where
  "js_min x k = (case x of Fin r \<Rightarrow> min r k | Infinity \<Rightarrow> k)"

text \<open>\<^verbatim>\<open>Math.round\<close> rounds to the nearest integer, ties towards positive infinity.\<close>

definition js_round :: "jsnum \<Rightarrow> jsnum" where
  "js_round x = (case x of Fin r \<Rightarrow> Fin (of_int \<lfloor>r + 1 / 2\<rfloor>) | Infinity \<Rightarrow> Infinity)"

text \<open>
  A timer handle or \<^verbatim>\<open>null\<close> in a condition: \<^verbatim>\<open>if (ref.current)\<close> holds for a
  non-zero number only.
\<close>

definition truthy :: "nat option \<Rightarrow> bool" where
  "truthy r = (case r of None \<Rightarrow> False | Some h \<Rightarrow> h \<noteq> 0)"

section \<open>Data of the component\<close>

datatype sig_value = V4 | V8 | VNone

record TimeSignature =
  beats :: nat
  value' :: sig_value

datatype NoteType = quarter | dottedQuarter | eighth

text \<open>
  The string a \<^verbatim>\<open>SelectItem\<close> hands to \<^verbatim>\<open>onValueChange\<close>: \<^verbatim>\<open>"None"\<close>, or
  \<^verbatim>\<open>"b/4"\<close> and \<^verbatim>\<open>"b/8"\<close> already split at the slash and parsed.
\<close>

datatype denominator = Den4 | Den8

datatype select_value = SelNone | SelSig nat denominator

definition TIME_SIGNATURES :: "select_value list" where
  "TIME_SIGNATURES =
     [SelNone, SelSig 2 Den4, SelSig 3 Den4, SelSig 4 Den4, SelSig 5 Den4,
      SelSig 6 Den8, SelSig 7 Den8, SelSig 9 Den8]"

text \<open>\<^verbatim>\<open>SOUNDS\<close>: frequency in Hz and gain multiplier.\<close>

definition SOUNDS_accent :: "rat \<times> rat" where
  "SOUNDS_accent = (1200, 1)"

definition SOUNDS_otherBeats :: "rat \<times> rat" where
  "SOUNDS_otherBeats = (800, 7 / 10)"

text \<open>
  What the outside observes, in order: an oscillator started by \<^verbatim>\<open>playClick\<close> (frequency,
  peak gain) and a call of \<^verbatim>\<open>setCurrentBeat\<close>, the visual callback.
\<close>

datatype effect = Click rat rat | SetCurrentBeat "nat option"

text \<open>
  Callbacks handed to \<^verbatim>\<open>setTimeout\<close>. A delayed \<^verbatim>\<open>startMetronome\<close> is the closure of
  the render that created it, so it carries that render's \<^verbatim>\<open>timeSignature.beats\<close>.
\<close>

datatype callback = StartMetronomeCb nat | WinLockoutCb | ConfettiCb | HideBannerCb

text \<open>
  The state: React state, the refs, and the host's timers. A beat index is a JavaScript
  number, \<open>None\<close> standing for \<^verbatim>\<open>NaN\<close> (the remainder by a beat count of 0). A repeating
  timer is its handle, its delay and the beat count its callback closed over. The
  vibration and camera-torch feedback and the confetti drawing write none of these fields
  and are left out.
\<close>

record metronome =
  isPlaying :: bool
  tempo :: rat
  volume :: rat
  timeSignature :: TimeSignature
  accentBeats :: "bool list"
  currentBeat :: "nat option"
  hasWon :: bool
  showVictoryBanner :: bool
  selectedNoteType :: NoteType
  winLockoutRef :: "nat option"
  audioContextRef :: bool
  timerRef :: "nat option"
  nextBeatRef :: "nat option"
  tempoRef :: rat
  volumeRef :: rat
  accentBeatsRef :: "bool list"
  isFirstClickRef :: bool
  tapTimesRef :: "rat list"
  tapTimeoutRef :: "nat option"
  intervalTimers :: "(nat \<times> jsnum \<times> nat) list"
  timeoutTimers :: "(nat \<times> callback) list"
  lastHandle :: nat
  trace :: "effect list"

definition initial :: metronome where
  "initial =
     \<lparr> isPlaying = False, tempo = 120, volume = 1 / 2,
       timeSignature = \<lparr> beats = 4, value' = V4 \<rparr>,
       accentBeats = [True, False, False, False], currentBeat = Some 0,
       hasWon = False, showVictoryBanner = False, selectedNoteType = quarter,
       winLockoutRef = None, audioContextRef = False, timerRef = None,
       nextBeatRef = Some 0, tempoRef = 120, volumeRef = 1 / 2,
       accentBeatsRef = [True, False, False, False], isFirstClickRef = True,
       tapTimesRef = [], tapTimeoutRef = None,
       intervalTimers = [], timeoutTimers = [], lastHandle = 0, trace = [] \<rparr>"

section \<open>The host's timers\<close>

text \<open>
  \<^verbatim>\<open>setInterval\<close> and \<^verbatim>\<open>setTimeout\<close> return a fresh positive handle from one shared
  counter; \<^verbatim>\<open>clearInterval\<close> and \<^verbatim>\<open>clearTimeout\<close> cancel whichever timer has the handle
  and do nothing for an unknown one.
\<close>

definition setInterval :: "jsnum \<Rightarrow> nat \<Rightarrow> metronome \<Rightarrow> nat \<times> metronome" where
  "setInterval delay b s =
     (let h = Suc (lastHandle s)
      in (h, s\<lparr>intervalTimers := intervalTimers s @ [(h, delay, b)], lastHandle := h\<rparr>))"

definition setTimeout :: "callback \<Rightarrow> metronome \<Rightarrow> nat \<times> metronome" where
  "setTimeout cb s =
     (let h = Suc (lastHandle s)
      in (h, s\<lparr>timeoutTimers := timeoutTimers s @ [(h, cb)], lastHandle := h\<rparr>))"

definition clearTimer :: "nat \<Rightarrow> metronome \<Rightarrow> metronome" where
  "clearTimer h s =
     s\<lparr>intervalTimers := filter (\<lambda>t. fst t \<noteq> h) (intervalTimers s),
       timeoutTimers := filter (\<lambda>t. fst t \<noteq> h) (timeoutTimers s)\<rparr>"

text \<open>\<^verbatim>\<open>if (ref.current) clearInterval(ref.current)\<close>\<close>

definition clearIfSet :: "nat option \<Rightarrow> metronome \<Rightarrow> metronome" where
  "clearIfSet r s = (if truthy r then clearTimer (the r) s else s)"

section \<open>Tone generator and tick\<close>

text \<open>\<^verbatim>\<open>accentBeatsRef.current[beatNumber]\<close> as a condition: out of range it is undefined.\<close>

definition accent_at :: "bool list \<Rightarrow> nat option \<Rightarrow> bool" where
  "accent_at xs b = (case b of None \<Rightarrow> False | Some i \<Rightarrow> i < length xs \<and> xs ! i)"

definition playClick :: "nat option \<Rightarrow> metronome \<Rightarrow> metronome" where
  "playClick beatNumber s =
     (if \<not> audioContextRef s then s
      else
        let soundParams =
              (if accent_at (accentBeatsRef s) beatNumber then SOUNDS_accent
               else SOUNDS_otherBeats);
            beatVolume = volumeRef s * snd soundParams
        in s\<lparr>trace := trace s @ [Click (fst soundParams) beatVolume]\<rparr>)"

definition setCurrentBeat :: "nat option \<Rightarrow> metronome \<Rightarrow> metronome" where
  "setCurrentBeat b s = s\<lparr>currentBeat := b, trace := trace s @ [SetCurrentBeat b]\<rparr>"

text \<open>\<^verbatim>\<open>(nextBeatRef.current + 1) % beats\<close>\<close>

definition advance :: "nat \<Rightarrow> nat option \<Rightarrow> nat option" where
  "advance b c =
     (case c of None \<Rightarrow> None | Some n \<Rightarrow> if b = 0 then None else Some (Suc n mod b))"

text \<open>
  The three statements of every beat: the immediate one of \<^verbatim>\<open>startMetronome\<close> and the
  body of both \<^verbatim>\<open>setInterval\<close> callbacks. \<open>b\<close> is the beat count the closure holds.
\<close>

definition tick :: "nat \<Rightarrow> metronome \<Rightarrow> metronome" where
  "tick b s =
     (let s1 = playClick (nextBeatRef s) s;
          s2 = setCurrentBeat (nextBeatRef s1) s1
      in s2\<lparr>nextBeatRef := advance b (nextBeatRef s2)\<rparr>)"

section \<open>Beat scheduler\<close>

definition startMetronome_intervalMs :: "rat \<Rightarrow> jsnum" where
  "startMetronome_intervalMs t = js_max (js_mul (js_div 60 t) 1000) 10"

definition startMetronome :: "nat \<Rightarrow> metronome \<Rightarrow> metronome" where
  "startMetronome b s =
     (let s1 = clearIfSet (timerRef s) s;
          intervalMs = startMetronome_intervalMs (tempoRef s1);
          s2 = tick b s1;
          (h, s3) = setInterval intervalMs b s2
      in s3\<lparr>timerRef := Some h\<rparr>)"

definition ensureAudioContext :: "metronome \<Rightarrow> metronome" where
  "ensureAudioContext s = s\<lparr>audioContextRef := True\<rparr>"

definition startStop :: "metronome \<Rightarrow> metronome" where
  "startStop s =
     (let s0 = ensureAudioContext s
      in if isPlaying s0 then
           (setCurrentBeat (Some 0) ((clearIfSet (timerRef s0) s0)\<lparr>isPlaying := False\<rparr>))
             \<lparr>nextBeatRef := Some 0\<rparr>
         else
           let s1 = (setCurrentBeat (Some 0) (s0\<lparr>isPlaying := True\<rparr>))\<lparr>nextBeatRef := Some 0\<rparr>
           in if isFirstClickRef s1 then
                (snd (setTimeout (StartMetronomeCb (beats (timeSignature s))) s1))
                  \<lparr>isFirstClickRef := False\<rparr>
              else startMetronome (beats (timeSignature s)) s1)"

text \<open>The effect on \<^verbatim>\<open>[isPlaying]\<close>, run after the render that follows the click.\<close>

definition isPlayingEffect :: "metronome \<Rightarrow> metronome" where
  "isPlayingEffect s = (if \<not> isPlaying s then clearIfSet (timerRef s) s else s)"

text \<open>The three effects that copy state into the refs.\<close>

definition syncRefs :: "metronome \<Rightarrow> metronome" where
  "syncRefs s = s\<lparr>tempoRef := tempo s, volumeRef := volume s, accentBeatsRef := accentBeats s\<rparr>"

section \<open>Accent pattern\<close>

text \<open>\<^verbatim>\<open>newAccents[0] = v\<close>: a store at index 0 makes an empty array one element long.\<close>

definition store0 :: "bool list \<Rightarrow> bool \<Rightarrow> bool list" where
  "store0 xs v = (case xs of [] \<Rightarrow> [v] | _ # ys \<Rightarrow> v # ys)"

text \<open>The updater of the effect on \<^verbatim>\<open>[timeSignature.beats]\<close>.\<close>

definition accentEffect :: "bool list \<Rightarrow> nat \<Rightarrow> bool list" where
  "accentEffect prev b =
     foldl (\<lambda>newAccents i. newAccents[i := prev ! i])
       (store0 (replicate b False) True) [0..<min (length prev) b]"

text \<open>
  The accent button \<open>i\<close>: \<^verbatim>\<open>newAccents[i] = !newAccents[i]\<close>. Past the end the array grows,
  the holes reading as undefined (false) and the new entry being \<^verbatim>\<open>!undefined\<close>.
\<close>

definition toggleAccent :: "nat \<Rightarrow> metronome \<Rightarrow> metronome" where
  "toggleAccent i s =
     s\<lparr>accentBeats :=
         (let prev = accentBeats s
          in if i < length prev then prev[i := \<not> prev ! i]
             else prev @ replicate (i - length prev) False @ [True])\<rparr>"

section \<open>Time-signature change\<close>

definition newTimeSignature :: "select_value \<Rightarrow> TimeSignature" where
  "newTimeSignature sel =
     (case sel of
        SelNone \<Rightarrow> \<lparr> beats = 1, value' = VNone \<rparr>
      | SelSig b d \<Rightarrow> \<lparr> beats = b, value' = (case d of Den4 \<Rightarrow> V4 | Den8 \<Rightarrow> V8) \<rparr>)"

definition timeSignature_intervalMs :: "rat \<Rightarrow> jsnum" where
  "timeSignature_intervalMs t = js_mul (js_div 60 t) 1000"

text \<open>The \<^verbatim>\<open>onValueChange\<close> handler of the time-signature \<^verbatim>\<open>Select\<close>.\<close>

definition onTimeSignatureChange :: "select_value \<Rightarrow> metronome \<Rightarrow> metronome" where
  "onTimeSignatureChange sel s =
     (let nts = newTimeSignature sel;
          s1 = s\<lparr>timeSignature := nts,
                 selectedNoteType := (if value' nts = V8 then eighth else quarter)\<rparr>;
          s2 = s1\<lparr>accentBeats :=
                 (if value' nts = VNone then [False]
                  else store0 (replicate (beats nts) False) True)\<rparr>
      in if isPlaying s then
           let s3 = clearIfSet (timerRef s2) s2;
               intervalMs = timeSignature_intervalMs (tempoRef s3);
               s4 = setCurrentBeat (Some 0) (s3\<lparr>nextBeatRef := Some 0\<rparr>);
               (h, s5) = setInterval intervalMs (beats nts) s4
           in s5\<lparr>timerRef := Some h\<rparr>
         else s2)"

text \<open>
  A selection as the user sees it: the handler, then the effects of the render that
  follows (the accent effect when the beat count changed, and the refs).
\<close>

definition selectTimeSignature :: "select_value \<Rightarrow> metronome \<Rightarrow> metronome" where
  "selectTimeSignature sel s =
     (let s1 = onTimeSignatureChange sel s;
          s2 = (if beats (timeSignature s1) \<noteq> beats (timeSignature s)
                then s1\<lparr>accentBeats := accentEffect (accentBeats s1) (beats (timeSignature s1))\<rparr>
                else s1)
      in syncRefs s2)"

section \<open>Tempo slider\<close>

definition onValueChange :: "rat \<Rightarrow> metronome \<Rightarrow> metronome" where
  "onValueChange v s = syncRefs (s\<lparr>tempo := v\<rparr>)"

definition onValueCommit :: "metronome \<Rightarrow> metronome" where
  "onValueCommit s = (if isPlaying s then startMetronome (beats (timeSignature s)) s else s)"

section \<open>Tap tempo\<close>

text \<open>
  The statements that both the tap handler and the win effect run on a win; the confetti
  bursts only take their two handles.
\<close>

definition celebrate :: "metronome \<Rightarrow> metronome" where
  "celebrate s =
     (let s1 = clearIfSet (winLockoutRef s) (s\<lparr>hasWon := True, showVictoryBanner := True\<rparr>);
          (h, s2) = setTimeout WinLockoutCb s1;
          s3 = s2\<lparr>winLockoutRef := Some h\<rparr>;
          s4 = snd (setTimeout ConfettiCb s3);
          s5 = snd (setTimeout ConfettiCb s4)
      in snd (setTimeout HideBannerCb s5))"

text \<open>Steps 1 and 2 of a tap: forget a stale window, append, keep the last three.\<close>

definition pushTap :: "rat \<Rightarrow> rat list \<Rightarrow> rat list" where
  "pushTap now tapTimes =
     (let t1 = (if length tapTimes > 0 \<and> now - last tapTimes > 1000 then [] else tapTimes);
          t2 = t1 @ [now]
      in if length t2 > 3 then tl t2 else t2)"

definition averageInterval :: "rat list \<Rightarrow> rat" where
  "averageInterval tapTimes =
     (let intervals = map (\<lambda>i. tapTimes ! i - tapTimes ! (i - 1)) [1..<length tapTimes]
      in foldl (\<lambda>a b. a + b) 0 intervals / of_nat (length intervals))"

definition clampedTempo :: "rat list \<Rightarrow> rat" where
  "clampedTempo tapTimes =
     (let newTempo = js_round (js_div 60000 (averageInterval tapTimes))
      in js_min (js_max newTempo 40) 800)"

text \<open>
  \<^verbatim>\<open>handleTapTempo\<close> with the clock reading as an argument. The second component is the
  estimate the handler passes to \<^verbatim>\<open>setTempo\<close>, \<open>None\<close> when it does not call it.
\<close>

definition handleTapTempo :: "rat \<Rightarrow> metronome \<Rightarrow> metronome \<times> rat option" where
  "handleTapTempo now s =
     (if truthy (winLockoutRef s) then (s, None)
      else
        let tapTimes = pushTap now (tapTimesRef s);
            s1 = s\<lparr>tapTimesRef := tapTimes\<rparr>
        in if length tapTimes \<ge> 2 then
             let c = clampedTempo tapTimes;
                 s2 = s1\<lparr>tempo := c\<rparr>;
                 s3 = (if c \<ge> 550 \<and> \<not> hasWon s then celebrate s2 else s2);
                 s4 = (if isPlaying s then
                         let s5 = clearIfSet (tapTimeoutRef s3) s3;
                             (h, s6) = setTimeout (StartMetronomeCb (beats (timeSignature s))) s5
                         in s6\<lparr>tapTimeoutRef := Some h\<rparr>
                       else s3)
             in (s4, Some c)
           else (s1, None))"

section \<open>Win effect\<close>

text \<open>
  The effect on \<^verbatim>\<open>[hasWon, tempo, timeSignature, selectedNoteType]\<close>: the cleanup of its
  previous run, then its body.
\<close>

definition winEffect :: "metronome \<Rightarrow> metronome" where
  "winEffect s =
     (let s1 = (if truthy (winLockoutRef s)
                then (clearTimer (the (winLockoutRef s)) s)\<lparr>winLockoutRef := None\<rparr>
                else s)
      in if tempo s1 \<ge> 550 \<and> \<not> hasWon s1 then celebrate s1
         else if tempo s1 < 550 then s1\<lparr>hasWon := False, showVictoryBanner := False\<rparr>
         else s1)"

text \<open>
  The dependencies of the win effect. (React compares the time-signature object by
  identity; only the \<^verbatim>\<open>Select\<close> handler stores a new one.)
\<close>

definition winDeps :: "metronome \<Rightarrow> bool \<times> rat \<times> TimeSignature \<times> NoteType" where
  "winDeps s = (hasWon s, tempo s, timeSignature s, selectedNoteType s)"

text \<open>
  The win effect after the render that follows a handler: it runs when a dependency
  differs from the render before, \<open>prev\<close>, and once more when it changed
  \<^verbatim>\<open>hasWon\<close> itself; its second run changes \<^verbatim>\<open>hasWon\<close> no further.
\<close>

definition winEffects :: "metronome \<Rightarrow> metronome \<Rightarrow> metronome" where
  "winEffects prev s =
     (if winDeps s = winDeps prev then s
      else
        let s1 = winEffect s
        in if hasWon s1 = hasWon s then s1 else winEffect s1)"

text \<open>
  A run of taps at the given clock readings, with the estimate of each tap. After each
  tap the component renders, which runs the win effect and brings the refs up to date.
\<close>

fun tapSequence :: "rat list \<Rightarrow> metronome \<Rightarrow> metronome \<times> rat option list" where
  "tapSequence [] s = (s, [])"
| "tapSequence (now # rest) s =
     (let (s1, r) = handleTapTempo now s;
          (s2, rs) = tapSequence rest (syncRefs (winEffects s s1))
      in (s2, r # rs))"

section \<open>Events\<close>

definition runCallback :: "callback \<Rightarrow> metronome \<Rightarrow> metronome" where
  "runCallback cb s =
     (case cb of
        StartMetronomeCb b \<Rightarrow> startMetronome b s
      | WinLockoutCb \<Rightarrow> s\<lparr>winLockoutRef := None, hasWon := False\<rparr>
      | ConfettiCb \<Rightarrow> s
      | HideBannerCb \<Rightarrow> s\<lparr>showVictoryBanner := False\<rparr>)"

text \<open>The host runs a pending timeout once and forgets it.\<close>

definition fireTimeout :: "nat \<Rightarrow> metronome \<Rightarrow> metronome" where
  "fireTimeout h s =
     (case map_of (timeoutTimers s) h of
        None \<Rightarrow> s
      | Some cb \<Rightarrow>
          runCallback cb (s\<lparr>timeoutTimers := filter (\<lambda>t. fst t \<noteq> h) (timeoutTimers s)\<rparr>))"

text \<open>The host runs the callback of a live repeating timer.\<close>

definition fireInterval :: "nat \<Rightarrow> metronome \<Rightarrow> metronome" where
  "fireInterval h s =
     (case map_of (intervalTimers s) h of None \<Rightarrow> s | Some (delay, b) \<Rightarrow> tick b s)"

datatype event =
    ClickStartStop
  | SlideTempo rat
  | CommitTempo
  | SelectSignature select_value
  | Tap rat
  | ToggleAccent nat
  | SetVolume rat
  | TimeoutFires nat
  | IntervalFires nat
  | WinEffectRuns

text \<open>
  One event of the single-threaded event loop: a handler or a timer callback runs to its
  end, then the refs are brought up to date.
\<close>

definition step :: "event \<Rightarrow> metronome \<Rightarrow> metronome" where
  "step e s =
     syncRefs
       (case e of
          ClickStartStop \<Rightarrow> isPlayingEffect (startStop s)
        | SlideTempo v \<Rightarrow> onValueChange v s
        | CommitTempo \<Rightarrow> onValueCommit s
        | SelectSignature sel \<Rightarrow> selectTimeSignature sel s
        | Tap now \<Rightarrow> fst (handleTapTempo now s)
        | ToggleAccent i \<Rightarrow> toggleAccent i s
        | SetVolume v \<Rightarrow> s\<lparr>volume := v\<rparr>
        | TimeoutFires h \<Rightarrow> fireTimeout h s
        | IntervalFires h \<Rightarrow> fireInterval h s
        | WinEffectRuns \<Rightarrow> winEffect s)"

inductive reachable :: "metronome \<Rightarrow> bool" where
  reachable_initial: "reachable initial"
| reachable_step: "reachable s \<Longrightarrow> reachable (step e s)"

text \<open>The events of a list, first to last.\<close>

definition run :: "event list \<Rightarrow> metronome \<Rightarrow> metronome" where
  "run es s = foldl (\<lambda>s e. step e s) s es"


text \<open>
  What the widgets can hand in: the tempo slider a whole number from 40 to 280, the
  volume slider a number from 0 to 1, the \<^verbatim>\<open>Select\<close> an entry of
  \<^verbatim>\<open>TIME_SIGNATURES\<close>, and there is an accent button for each beat of the signature.
\<close>

definition admissible :: "metronome \<Rightarrow> event \<Rightarrow> bool" where
  "admissible s e =
     (case e of
        SlideTempo v \<Rightarrow> 40 \<le> v \<and> v \<le> 280 \<and> of_int \<lfloor>v\<rfloor> = v
      | SelectSignature sel \<Rightarrow> List.member TIME_SIGNATURES sel
      | ToggleAccent i \<Rightarrow> i < beats (timeSignature s)
      | SetVolume v \<Rightarrow> 0 \<le> v \<and> v \<le> 1
      | _ \<Rightarrow> True)"

inductive ui_reachable :: "metronome \<Rightarrow> bool" where
  ui_initial: "ui_reachable initial"
| ui_step: "ui_reachable s \<Longrightarrow> admissible s e \<Longrightarrow> ui_reachable (step e s)"

text \<open>Whether each event of a list is admissible where it occurs.\<close>

fun admissible_run :: "event list \<Rightarrow> metronome \<Rightarrow> bool" where
  "admissible_run [] s = True"
| "admissible_run (e # es) s = (admissible s e \<and> admissible_run es (step e s))"

section \<open>Ownership of the repeating timer\<close>

text \<open>
  Every live repeating timer is the one \<^verbatim>\<open>timerRef\<close> holds, so there is at most one.
\<close>

definition timers_owned :: "metronome \<Rightarrow> bool" where
  "timers_owned s =
     (length (intervalTimers s) \<le> 1 \<and>
      list_all (\<lambda>t. fst t \<noteq> 0 \<and> timerRef s = Some (fst t)) (intervalTimers s))"


section \<open>The owned timer is the only one\<close>

lemma timers_owned_filter:
  "timers_owned s \<Longrightarrow> intervalTimers s' = filter P (intervalTimers s) \<Longrightarrow>
     timerRef s' = timerRef s \<Longrightarrow> timers_owned s'"
  unfolding timers_owned_def list_all_iff
  by (auto intro: le_trans [OF length_filter_le])

lemma timers_owned_empty: "intervalTimers s = [] \<Longrightarrow> timers_owned s"
  by (simp add: timers_owned_def)

lemma clearIfSet_timers:
  "intervalTimers (clearIfSet r s) =
     filter (\<lambda>t. \<not> (truthy r \<and> fst t = the r)) (intervalTimers s)"
  by (simp add: clearIfSet_def clearTimer_def)

lemma clearIfSet_timerRef [simp]: "timerRef (clearIfSet r s) = timerRef s"
  by (simp add: clearIfSet_def clearTimer_def)

lemma clearIfSet_lastHandle [simp]: "lastHandle (clearIfSet r s) = lastHandle s"
  by (simp add: clearIfSet_def clearTimer_def)

lemma clearIfSet_tempoRef [simp]: "tempoRef (clearIfSet r s) = tempoRef s"
  by (simp add: clearIfSet_def clearTimer_def)

lemma clearIfSet_nextBeatRef [simp]: "nextBeatRef (clearIfSet r s) = nextBeatRef s"
  by (simp add: clearIfSet_def clearTimer_def)

lemma clearIfSet_trace [simp]: "trace (clearIfSet r s) = trace s"
  by (simp add: clearIfSet_def clearTimer_def)

lemma clearIfSet_audio [simp]: "audioContextRef (clearIfSet r s) = audioContextRef s"
  by (simp add: clearIfSet_def clearTimer_def)

lemma clearIfSet_accentBeatsRef [simp]: "accentBeatsRef (clearIfSet r s) = accentBeatsRef s"
  by (simp add: clearIfSet_def clearTimer_def)

lemma clearIfSet_volumeRef [simp]: "volumeRef (clearIfSet r s) = volumeRef s"
  by (simp add: clearIfSet_def clearTimer_def)

lemma clear_own:
  "timers_owned s \<Longrightarrow> intervalTimers (clearIfSet (timerRef s) s) = []"
  by (auto simp: timers_owned_def clearIfSet_timers list_all_iff truthy_def filter_empty_conv)

lemma tick_timers [simp]: "intervalTimers (tick b s) = intervalTimers s"
  by (simp add: tick_def playClick_def setCurrentBeat_def Let_def)

lemma tick_timerRef [simp]: "timerRef (tick b s) = timerRef s"
  by (simp add: tick_def playClick_def setCurrentBeat_def Let_def)

lemma tick_lastHandle [simp]: "lastHandle (tick b s) = lastHandle s"
  by (simp add: tick_def playClick_def setCurrentBeat_def Let_def)

lemma tick_tempoRef [simp]: "tempoRef (tick b s) = tempoRef s"
  by (simp add: tick_def playClick_def setCurrentBeat_def Let_def)

lemma startMetronome_timers:
  "timers_owned s \<Longrightarrow>
     intervalTimers (startMetronome b s) =
       [(Suc (lastHandle s), startMetronome_intervalMs (tempoRef s), b)] \<and>
     timerRef (startMetronome b s) = Some (Suc (lastHandle s)) \<and>
     lastHandle (startMetronome b s) = Suc (lastHandle s)"
  by (simp add: startMetronome_def setInterval_def Let_def clear_own)

lemma startMetronome_owned: "timers_owned s \<Longrightarrow> timers_owned (startMetronome b s)"
  by (simp add: timers_owned_def [of "startMetronome b s"] startMetronome_timers)

lemma onTimeSignatureChange_timers:
  "timers_owned s \<Longrightarrow> isPlaying s \<Longrightarrow>
     intervalTimers (onTimeSignatureChange sel s) =
       [(Suc (lastHandle s), timeSignature_intervalMs (tempoRef s), beats (newTimeSignature sel))] \<and>
     timerRef (onTimeSignatureChange sel s) = Some (Suc (lastHandle s))"
  by (auto simp: onTimeSignatureChange_def setInterval_def Let_def setCurrentBeat_def
      clearIfSet_timers timers_owned_def list_all_iff truthy_def filter_empty_conv)

lemma onTimeSignatureChange_owned:
  "timers_owned s \<Longrightarrow> timers_owned (onTimeSignatureChange sel s)"
proof (cases "isPlaying s")
  case True
  assume "timers_owned s"
  from onTimeSignatureChange_timers [OF this True, of sel] show ?thesis
    by (simp add: timers_owned_def [of "onTimeSignatureChange sel s"])
next
  case False
  assume "timers_owned s"
  then show ?thesis using False
    by (simp add: onTimeSignatureChange_def Let_def timers_owned_def)
qed

lemma syncRefs_owned [simp]: "timers_owned (syncRefs s) = timers_owned s"
  by (simp add: syncRefs_def timers_owned_def)

lemma setTimeout_owned [simp]: "timers_owned (snd (setTimeout cb s)) = timers_owned s"
  by (simp add: setTimeout_def Let_def timers_owned_def)

lemma clearIfSet_owned: "timers_owned s \<Longrightarrow> timers_owned (clearIfSet r s)"
  by (rule timers_owned_filter [OF _ clearIfSet_timers]) simp_all

lemma celebrate_owned: "timers_owned s \<Longrightarrow> timers_owned (celebrate s)"
proof -
  assume a: "timers_owned s"
  have "timers_owned (clearIfSet (winLockoutRef s) (s\<lparr>hasWon := True, showVictoryBanner := True\<rparr>))"
    by (rule clearIfSet_owned) (use a in \<open>simp add: timers_owned_def\<close>)
  then show ?thesis
    by (simp add: celebrate_def Let_def split: prod.splits)
      (simp add: setTimeout_def Let_def timers_owned_def)
qed

lemma tick_owned [simp]: "timers_owned (tick b s) = timers_owned s"
  by (simp add: timers_owned_def)

lemma startStop_owned: "timers_owned s \<Longrightarrow> timers_owned (startStop s)"
proof -
  assume a: "timers_owned s"
  have e: "timers_owned (ensureAudioContext s)"
    using a by (simp add: ensureAudioContext_def timers_owned_def)
  show ?thesis
  proof (cases "isPlaying s")
    case True
    have "intervalTimers (startStop s) = []"
      using True clear_own [OF e]
      by (simp add: startStop_def Let_def setCurrentBeat_def ensureAudioContext_def)
    then show ?thesis by (rule timers_owned_empty)
  next
    case False
    have p: "timers_owned ((setCurrentBeat (Some 0) (ensureAudioContext s\<lparr>isPlaying := True\<rparr>))\<lparr>nextBeatRef := Some 0\<rparr>)"
      using e by (simp add: setCurrentBeat_def timers_owned_def)
    show ?thesis
      using False p startMetronome_owned [OF p]
      by (simp add: startStop_def Let_def ensureAudioContext_def)
        (simp add: setTimeout_def Let_def timers_owned_def)
  qed
qed

lemma isPlayingEffect_owned: "timers_owned s \<Longrightarrow> timers_owned (isPlayingEffect s)"
  by (simp add: isPlayingEffect_def clearIfSet_owned)

lemma onValueCommit_owned: "timers_owned s \<Longrightarrow> timers_owned (onValueCommit s)"
  by (simp add: onValueCommit_def startMetronome_owned)

lemma onValueChange_owned: "timers_owned s \<Longrightarrow> timers_owned (onValueChange v s)"
  by (simp add: onValueChange_def) (simp add: timers_owned_def)

lemma toggleAccent_owned: "timers_owned s \<Longrightarrow> timers_owned (toggleAccent i s)"
  by (simp add: toggleAccent_def timers_owned_def)

lemma selectTimeSignature_owned: "timers_owned s \<Longrightarrow> timers_owned (selectTimeSignature sel s)"
  using onTimeSignatureChange_owned [of s sel]
  by (simp add: selectTimeSignature_def Let_def) (simp add: timers_owned_def)

lemma timers_owned_updates [simp]:
  "timers_owned (s\<lparr>tapTimesRef := w\<rparr>) = timers_owned s"
  "timers_owned (s\<lparr>tempo := c\<rparr>) = timers_owned s"
  "timers_owned (s\<lparr>tapTimeoutRef := r\<rparr>) = timers_owned s"
  "timers_owned (s\<lparr>winLockoutRef := r\<rparr>) = timers_owned s"
  "timers_owned (s\<lparr>hasWon := x\<rparr>) = timers_owned s"
  "timers_owned (s\<lparr>showVictoryBanner := x\<rparr>) = timers_owned s"
  "timers_owned (s\<lparr>timeoutTimers := ts\<rparr>) = timers_owned s"
  by (simp_all add: timers_owned_def)

lemma handleTapTempo_owned: "timers_owned s \<Longrightarrow> timers_owned (fst (handleTapTempo now s))"
  by (simp add: handleTapTempo_def Let_def case_prod_beta celebrate_owned clearIfSet_owned)

lemma winEffect_owned: "timers_owned s \<Longrightarrow> timers_owned (winEffect s)"
proof -
  assume a: "timers_owned s"
  have "timers_owned (clearIfSet (winLockoutRef s) s)" using a by (rule clearIfSet_owned)
  then have o1: "timers_owned (if truthy (winLockoutRef s)
      then (clearTimer (the (winLockoutRef s)) s)\<lparr>winLockoutRef := None\<rparr> else s)"
    using a by (auto simp: clearIfSet_def split: if_splits)
  show ?thesis
    using o1 celebrate_owned [OF o1]
    by (simp add: winEffect_def Let_def)
qed

lemma runCallback_owned: "timers_owned s \<Longrightarrow> timers_owned (runCallback cb s)"
  by (cases cb) (simp_all add: runCallback_def startMetronome_owned)

lemma fireTimeout_owned: "timers_owned s \<Longrightarrow> timers_owned (fireTimeout h s)"
proof -
  assume a: "timers_owned s"
  have "timers_owned (s\<lparr>timeoutTimers := filter (\<lambda>t. fst t \<noteq> h) (timeoutTimers s)\<rparr>)"
    using a by (simp add: timers_owned_def)
  then show ?thesis
    using a by (simp add: fireTimeout_def runCallback_owned split: option.splits)
qed

lemma fireInterval_owned: "timers_owned s \<Longrightarrow> timers_owned (fireInterval h s)"
  by (simp add: fireInterval_def split: option.splits)

lemma step_owned: "timers_owned s \<Longrightarrow> timers_owned (step e s)"
  by (cases e)
    (simp_all add: step_def startStop_owned isPlayingEffect_owned onValueChange_owned
      onValueCommit_owned selectTimeSignature_owned handleTapTempo_owned toggleAccent_owned
      fireTimeout_owned fireInterval_owned winEffect_owned, simp add: timers_owned_def)

lemma initial_owned: "timers_owned initial"
  by (simp add: timers_owned_def initial_def)

lemma reachable_owned: "reachable s \<Longrightarrow> timers_owned s"
  by (induction rule: reachable.induct) (simp_all add: initial_owned step_owned)


section \<open>Intervals and ticks\<close>

lemma reachable_run: "reachable s \<Longrightarrow> reachable (run es s)"
  unfolding run_def by (induction es arbitrary: s) (simp_all add: reachable_step)

lemma interval_60000: "js_mul (js_div 60 t) 1000 = js_div 60000 t"
  by (simp add: js_mul_def js_div_def)

lemma startMetronome_interval_floor:
  "startMetronome_intervalMs t = js_max (js_div 60000 t) 10"
  by (simp add: startMetronome_intervalMs_def interval_60000)

lemma timeSignature_interval_unfloored:
  "timeSignature_intervalMs t = js_div 60000 t"
  by (simp add: timeSignature_intervalMs_def interval_60000)


lemma tick_trace:
  "trace (tick b s) =
     trace s @
     (if audioContextRef s
      then [Click (if accent_at (accentBeatsRef s) (nextBeatRef s) then 1200 else 800)
              (volumeRef s * (if accent_at (accentBeatsRef s) (nextBeatRef s) then 1 else 7 / 10))]
      else []) @
     [SetCurrentBeat (nextBeatRef s)]"
  by (simp add: tick_def playClick_def setCurrentBeat_def Let_def SOUNDS_accent_def
      SOUNDS_otherBeats_def)

lemma tick_currentBeat: "currentBeat (tick b s) = nextBeatRef s"
  by (simp add: tick_def playClick_def setCurrentBeat_def Let_def)

lemma tick_nextBeatRef: "nextBeatRef (tick b s) = advance b (nextBeatRef s)"
  by (simp add: tick_def playClick_def setCurrentBeat_def Let_def)

lemma startMetronome_tick:
  "trace (startMetronome b s) = trace (tick b s) \<and>
   currentBeat (startMetronome b s) = currentBeat (tick b s) \<and>
   nextBeatRef (startMetronome b s) = nextBeatRef (tick b s)"
  by (simp add: startMetronome_def setInterval_def Let_def tick_trace tick_currentBeat
      tick_nextBeatRef)

lemma fireInterval_live:
  "map_of (intervalTimers s) h = Some (d, b) \<Longrightarrow> fireInterval h s = tick b s"
  by (simp add: fireInterval_def)

lemma ticks_cursor:
  assumes "intervalTimers s = [(h, d, b)]" and "nextBeatRef s = Some c" and "c < b"
  shows "intervalTimers ((fireInterval h ^^ n) s) = [(h, d, b)] \<and>
         nextBeatRef ((fireInterval h ^^ n) s) = Some ((c + n) mod b)"
proof (induction n)
  case 0
  from assms show ?case by simp
next
  case (Suc n)
  let ?s = "(fireInterval h ^^ n) s"
  from Suc have live: "map_of (intervalTimers ?s) h = Some (d, b)" by simp
  have "fireInterval h ?s = tick b ?s" by (rule fireInterval_live [OF live])
  moreover from assms(3) have "0 < b" by simp
  ultimately show ?case using Suc
    by (simp add: tick_nextBeatRef advance_def mod_Suc_eq)
qed

lemma startMetronome_reconfigure:
  assumes "timers_owned s" and "nextBeatRef s = Some c" and "0 < b"
  shows "intervalTimers (startMetronome b s) =
           [(Suc (lastHandle s), js_max (js_div 60000 (tempoRef s)) 10, b)] \<and>
         timerRef (startMetronome b s) = Some (Suc (lastHandle s)) \<and>
         nextBeatRef (startMetronome b s) = Some ((c + 1) mod b)"
  using assms
  by (simp add: startMetronome_timers startMetronome_tick tick_nextBeatRef advance_def
      startMetronome_interval_floor)


section \<open>The order of a beat\<close>

text \<open>
  A beat at cursor \<open>c\<close> first starts the click, with the timbre chosen by
  \<^verbatim>\<open>accentBeatsRef.current[c]\<close> and the gain \<^verbatim>\<open>volumeRef.current\<close> times the timbre's
  multiplier (nothing when there is no audio context), then calls the visual callback
  with \<open>c\<close>, then moves the cursor to \<open>(c + 1) mod b\<close>, \<open>b\<close> being the beat count
  the callback closed over. The immediate beat of
  \<^verbatim>\<open>startMetronome\<close> and the callback of every live repeating timer are this same beat.
\<close>

lemma tick_order:
  assumes "nextBeatRef s = Some c" and "0 < b"
  shows "trace (tick b s) =
           trace s @
           (if audioContextRef s
            then [Click (if accent_at (accentBeatsRef s) (Some c) then 1200 else 800)
                    (volumeRef s * (if accent_at (accentBeatsRef s) (Some c) then 1 else 7 / 10))]
            else []) @
           [SetCurrentBeat (Some c)] \<and>
         currentBeat (tick b s) = Some c \<and>
         nextBeatRef (tick b s) = Some ((c + 1) mod b) \<and>
         (c < length (accentBeatsRef s) \<longrightarrow>
            accent_at (accentBeatsRef s) (Some c) = accentBeatsRef s ! c) \<and>
         trace (startMetronome b s) = trace (tick b s) \<and>
         currentBeat (startMetronome b s) = Some c \<and>
         nextBeatRef (startMetronome b s) = Some ((c + 1) mod b) \<and>
         (\<forall>h d. map_of (intervalTimers s) h = Some (d, b) \<longrightarrow> fireInterval h s = tick b s)"
  using assms
  by (simp add: tick_trace tick_currentBeat tick_nextBeatRef startMetronome_tick advance_def
      accent_at_def fireInterval_live)

section \<open>Tempo change while running\<close>

text \<open>
  C4: committing a new tempo \<open>v\<close> while running leaves exactly one live
  timer, a new one at \<open>max (60000 / v) 10\<close> ms; it sounds the beat at the current cursor
  at once and moves the cursor on by one, modulo the beat count. The cursor is not reset
  to 0 and no beat index is skipped or repeated.
\<close>

theorem C4_tempo_change_restarts_and_advances:
  assumes "reachable s" and "isPlaying s" and "nextBeatRef s = Some c"
    and "0 < beats (timeSignature s)"
  shows "intervalTimers (onValueCommit (onValueChange v s)) =
           [(Suc (lastHandle s), js_max (js_div 60000 v) 10, beats (timeSignature s))] \<and>
         timerRef (onValueCommit (onValueChange v s)) = Some (Suc (lastHandle s)) \<and>
         nextBeatRef (onValueCommit (onValueChange v s)) =
           Some ((c + 1) mod beats (timeSignature s)) \<and>
         trace (onValueCommit (onValueChange v s)) =
           trace s @
           (if audioContextRef s
            then [Click (if accent_at (accentBeats s) (Some c) then 1200 else 800)
                    (volume s * (if accent_at (accentBeats s) (Some c) then 1 else 7 / 10))]
            else []) @
           [SetCurrentBeat (Some c)] \<and>
         currentBeat (onValueCommit (onValueChange v s)) = Some c \<and>
         tempo (onValueCommit (onValueChange v s)) = v"
proof -
  let ?s1 = "onValueChange v s"
  have o: "timers_owned ?s1"
    using reachable_owned [OF assms(1)] by (rule onValueChange_owned)
  have f: "isPlaying ?s1" "nextBeatRef ?s1 = Some c" "lastHandle ?s1 = lastHandle s"
    "tempoRef ?s1 = v" "timeSignature ?s1 = timeSignature s"
    "trace ?s1 = trace s" "audioContextRef ?s1 = audioContextRef s"
    "accentBeatsRef ?s1 = accentBeats s" "volumeRef ?s1 = volume s"
    using assms by (simp_all add: onValueChange_def syncRefs_def)
  have c: "onValueCommit ?s1 = startMetronome (beats (timeSignature s)) ?s1"
    using f by (simp add: onValueCommit_def)
  have t: "tempo (startMetronome (beats (timeSignature s)) ?s1) = v"
    by (simp add: startMetronome_def setInterval_def Let_def tick_def playClick_def
        setCurrentBeat_def clearIfSet_def clearTimer_def onValueChange_def syncRefs_def)
  show ?thesis
    unfolding c
    using startMetronome_reconfigure [OF o f(2) assms(4)] f t
    by (simp add: startMetronome_tick tick_currentBeat tick_trace)
qed

text \<open>
  The cursor does not stay where it was: in a running 4/4 state with the cursor at 1,
  committing the tempo 100 leaves it at 2.
\<close>

theorem C4_counterexample:
  "isPlaying (run [ClickStartStop, TimeoutFires 1] initial) \<and>
   nextBeatRef (run [ClickStartStop, TimeoutFires 1] initial) = Some 1 \<and>
   nextBeatRef (onValueCommit (onValueChange 100 (run [ClickStartStop, TimeoutFires 1] initial))) = Some 2"
  by code_simp


theorem C4_witness:
  "nextBeatRef (onValueCommit (onValueChange 100 (run [ClickStartStop, TimeoutFires 1] initial))) =
     Some 2 \<and>
   intervalTimers (onValueCommit (onValueChange 100 (run [ClickStartStop, TimeoutFires 1] initial))) =
     [(3, Fin 600, 4)]"
proof -
  let ?s = "run [ClickStartStop, TimeoutFires 1] initial"
  have r: "reachable ?s" by (rule reachable_run [OF reachable_initial])
  have p: "isPlaying ?s" by code_simp
  have n: "nextBeatRef ?s = Some 1" by code_simp
  have b: "0 < beats (timeSignature ?s)" by code_simp
  have l: "lastHandle ?s = 2" "beats (timeSignature ?s) = 4" by code_simp+
  show ?thesis
    using C4_tempo_change_restarts_and_advances [OF r p n b, of 100] l
    by (simp add: js_max_def js_div_def)
qed

section \<open>Time-signature change while running\<close>

text \<open>
  Selecting a time signature while running leaves exactly one live timer, a new one
  whose callback holds the new beat count; the cursor and the displayed beat are 0, and
  after \<open>n\<close> ticks of that timer the cursor is \<open>n mod b\<close> for the new beat count \<open>b\<close>.
\<close>

lemma time_signature_change_rearms:
  assumes "reachable s" and "isPlaying s" and "0 < beats (newTimeSignature sel)"
  shows "intervalTimers (selectTimeSignature sel s) =
           [(Suc (lastHandle s), timeSignature_intervalMs (tempoRef s),
             beats (newTimeSignature sel))] \<and>
         timerRef (selectTimeSignature sel s) = Some (Suc (lastHandle s)) \<and>
         nextBeatRef (selectTimeSignature sel s) = Some 0 \<and>
         currentBeat (selectTimeSignature sel s) = Some 0 \<and>
         beats (timeSignature (selectTimeSignature sel s)) = beats (newTimeSignature sel) \<and>
         (\<forall>n. nextBeatRef ((fireInterval (Suc (lastHandle s)) ^^ n) (selectTimeSignature sel s)) =
                Some (n mod beats (newTimeSignature sel)))"
proof -
  let ?h = "onTimeSignatureChange sel s"
  let ?s' = "selectTimeSignature sel s"
  have o: "timers_owned s" by (rule reachable_owned [OF assms(1)])
  have same: "intervalTimers ?s' = intervalTimers ?h" "timerRef ?s' = timerRef ?h"
    "nextBeatRef ?s' = nextBeatRef ?h" "currentBeat ?s' = currentBeat ?h"
    "timeSignature ?s' = timeSignature ?h"
    by (simp_all add: selectTimeSignature_def Let_def syncRefs_def)
  have h: "nextBeatRef ?h = Some 0" "currentBeat ?h = Some 0"
    "timeSignature ?h = newTimeSignature sel"
    using assms(2)
    by (simp_all add: onTimeSignatureChange_def Let_def setInterval_def setCurrentBeat_def
        clearIfSet_def clearTimer_def)
  have t: "intervalTimers ?s' =
      [(Suc (lastHandle s), timeSignature_intervalMs (tempoRef s), beats (newTimeSignature sel))]"
    "timerRef ?s' = Some (Suc (lastHandle s))"
    using onTimeSignatureChange_timers [OF o assms(2), of sel] same by simp_all
  have n: "nextBeatRef ?s' = Some 0" using same h by simp
  have "\<forall>n. nextBeatRef ((fireInterval (Suc (lastHandle s)) ^^ n) ?s') =
      Some (n mod beats (newTimeSignature sel))"
    using ticks_cursor [OF t(1) n assms(3)] by simp
  with t n same h show ?thesis by simp
qed


section \<open>Accent pattern on a time-signature change\<close>

lemma copy_loop:
  "k \<le> length acc \<Longrightarrow> k \<le> length prev \<Longrightarrow>
     foldl (\<lambda>newAccents i. newAccents[i := prev ! i]) acc [0..<k] = take k prev @ drop k acc"
proof (induction k)
  case 0
  then show ?case by simp
next
  case (Suc k)
  then have "foldl (\<lambda>newAccents i. newAccents[i := prev ! i]) acc [0..<Suc k] =
      (take k prev @ drop k acc)[k := prev ! k]"
    by simp
  also have "\<dots> = take k prev @ (drop k acc)[0 := prev ! k]"
    using Suc.prems by (simp add: list_update_append)
  also have "\<dots> = take k prev @ prev ! k # drop (Suc k) acc"
    using Suc.prems by (simp add: Cons_nth_drop_Suc [symmetric])
  also have "\<dots> = take (Suc k) prev @ drop (Suc k) acc"
    using Suc.prems by (simp add: take_Suc_conv_app_nth)
  finally show ?case .
qed

lemma length_store0: "length (store0 (replicate b False) True) = max b 1"
  by (cases b) (simp_all add: store0_def)

lemma accentEffect_eq:
  "accentEffect prev b =
     take (min (length prev) b) prev @
     drop (min (length prev) b) (store0 (replicate b False) True)"
  unfolding accentEffect_def
  by (rule copy_loop) (simp_all add: length_store0)

lemma accentEffect_same_length:
  "length prev = b \<Longrightarrow> 0 < b \<Longrightarrow> accentEffect prev b = prev"
  by (simp add: accentEffect_eq length_store0)

lemma accentEffect_resize:
  "prev \<noteq> [] \<Longrightarrow> 0 < b \<Longrightarrow>
     accentEffect prev b = take b prev @ replicate (b - length prev) False"
  by (cases b; cases prev) (auto simp: accentEffect_eq store0_def min_def)

lemma store0_fresh: "0 < b \<Longrightarrow> store0 (replicate b False) True = True # replicate (b - 1) False"
  by (cases b) (simp_all add: store0_def)


lemma TIME_SIGNATURES_positive:
  "list_all (\<lambda>sel. 0 < beats (newTimeSignature sel)) TIME_SIGNATURES"
  by (simp add: TIME_SIGNATURES_def newTimeSignature_def)

lemma onTimeSignatureChange_accentBeats:
  "accentBeats (onTimeSignatureChange sel s) =
     (if value' (newTimeSignature sel) = VNone then [False]
      else store0 (replicate (beats (newTimeSignature sel)) False) True) \<and>
   timeSignature (onTimeSignatureChange sel s) = newTimeSignature sel"
  by (simp add: onTimeSignatureChange_def Let_def setInterval_def setCurrentBeat_def
      clearIfSet_def clearTimer_def)

lemma selectTimeSignature_accentBeats:
  "accentBeats (selectTimeSignature sel s) =
     (if beats (newTimeSignature sel) \<noteq> beats (timeSignature s)
      then accentEffect (accentBeats (onTimeSignatureChange sel s)) (beats (newTimeSignature sel))
      else accentBeats (onTimeSignatureChange sel s)) \<and>
   accentBeatsRef (selectTimeSignature sel s) = accentBeats (selectTimeSignature sel s) \<and>
   timeSignature (selectTimeSignature sel s) = newTimeSignature sel"
  by (simp add: selectTimeSignature_def Let_def syncRefs_def onTimeSignatureChange_accentBeats)

text \<open>
  C6: selecting a signature \<open>b/4\<close> or \<open>b/8\<close> with \<open>b > 0\<close> sets the accent
  pattern to \<open>b\<close> entries, the first true and all others false, whatever the pattern was
  before: the handler writes a fresh pattern, and the accent effect that runs after it
  copies that pattern onto itself.
\<close>

theorem C6_time_signature_change_resets_accents:
  assumes "0 < b"
  shows "accentBeats (selectTimeSignature (SelSig b d) s) = True # replicate (b - 1) False \<and>
         accentBeatsRef (selectTimeSignature (SelSig b d) s) = True # replicate (b - 1) False \<and>
         length (accentBeats (selectTimeSignature (SelSig b d) s)) = b \<and>
         beats (timeSignature (selectTimeSignature (SelSig b d) s)) = b"
proof -
  have nts: "beats (newTimeSignature (SelSig b d)) = b"
    "value' (newTimeSignature (SelSig b d)) \<noteq> VNone"
    by (cases d; simp add: newTimeSignature_def)+
  have h: "accentBeats (onTimeSignatureChange (SelSig b d) s) = True # replicate (b - 1) False"
    using nts assms by (simp add: onTimeSignatureChange_accentBeats store0_fresh)
  have e: "accentEffect (True # replicate (b - 1) False) b = True # replicate (b - 1) False"
    using assms by (simp add: accentEffect_same_length)
  have a: "accentBeats (selectTimeSignature (SelSig b d) s) = True # replicate (b - 1) False"
    by (simp only: conjunct1 [OF selectTimeSignature_accentBeats] nts(1) h e if_cancel)
  have r: "accentBeatsRef (selectTimeSignature (SelSig b d) s) =
      accentBeats (selectTimeSignature (SelSig b d) s)"
    "timeSignature (selectTimeSignature (SelSig b d) s) = newTimeSignature (SelSig b d)"
    by (simp_all only: selectTimeSignature_accentBeats)
  show ?thesis
    using assms by (simp add: a r nts(1))
qed

theorem C6_witness:
  "accentBeats (selectTimeSignature (SelSig 3 Den4) (run [ToggleAccent 1] initial)) =
     [True, False, False]"
  using C6_time_signature_change_resets_accents [of 3 Den4 "run [ToggleAccent 1] initial"]
  by (simp add: numeral_2_eq_2)

text \<open>
  An accent set on the second beat of 4/4 is gone after selecting 3/4, and after selecting
  "None" the first entry is false.
\<close>

theorem C6_counterexample:
  "accentBeats (run [ToggleAccent 1] initial) = [True, True, False, False] \<and>
   accentBeats (run [ToggleAccent 1, SelectSignature (SelSig 3 Den4)] initial) =
     [True, False, False] \<and>
   accentBeats (run [SelectSignature SelNone] initial) = [False]"
  by code_simp

text \<open>
  C10: selecting "None" sets the beat count to 1 and the accent pattern, in the state and
  in the ref, to the single entry false; the one beat is played with the non-accent
  timbre, 800 Hz at 0.7 of the volume.
\<close>

theorem C10_none_signature_is_unaccented:
  "accentBeats (selectTimeSignature SelNone s) = [False] \<and>
   accentBeatsRef (selectTimeSignature SelNone s) = [False] \<and>
   timeSignature (selectTimeSignature SelNone s) = \<lparr> beats = 1, value' = VNone \<rparr> \<and>
   \<not> accent_at (accentBeatsRef (selectTimeSignature SelNone s)) (Some 0) \<and>
   trace (playClick (Some 0) (selectTimeSignature SelNone s)) =
     trace (selectTimeSignature SelNone s) @
     (if audioContextRef (selectTimeSignature SelNone s)
      then [Click 800 (volumeRef (selectTimeSignature SelNone s) * (7 / 10))] else [])"
proof -
  have nts: "newTimeSignature SelNone = \<lparr> beats = 1, value' = VNone \<rparr>"
    by (simp add: newTimeSignature_def)
  have e: "accentEffect [False] 1 = [False]"
    by (simp add: accentEffect_same_length)
  have a: "accentBeats (selectTimeSignature SelNone s) = [False]"
    "accentBeatsRef (selectTimeSignature SelNone s) = [False]"
    "timeSignature (selectTimeSignature SelNone s) = \<lparr> beats = 1, value' = VNone \<rparr>"
    using e by (simp_all add: selectTimeSignature_accentBeats onTimeSignatureChange_accentBeats nts)
  show ?thesis
    using a by (simp add: accent_at_def playClick_def Let_def SOUNDS_otherBeats_def)
qed

theorem C10_witness:
  "accentBeats (selectTimeSignature SelNone initial) = [False] \<and>
   accentBeats (run [SelectSignature SelNone] initial) = [False]"
proof -
  have "accentBeats (run [SelectSignature SelNone] initial) = [False]" by code_simp
  with C10_none_signature_is_unaccented [of initial] show ?thesis by simp
qed

section \<open>At most one live timer\<close>

text \<open>
  C2: in every state reachable from the initial one by any sequence of events, at most
  one repeating timer is live and it is the one \<^verbatim>\<open>timerRef\<close> holds; after
  \<^verbatim>\<open>startMetronome\<close> (start, tempo commit, delayed tap restart) and after a
  time-signature change while playing, the only live timer is the newly armed one.
\<close>

theorem C2_at_most_one_live_timer:
  assumes "reachable s"
  shows "length (intervalTimers s) \<le> 1 \<and>
         list_all (\<lambda>t. timerRef s = Some (fst t)) (intervalTimers s) \<and>
         (\<forall>b. map fst (intervalTimers (startMetronome b s)) = [Suc (lastHandle s)]) \<and>
         (\<forall>sel. isPlaying s \<longrightarrow>
            map fst (intervalTimers (onTimeSignatureChange sel s)) = [Suc (lastHandle s)])"
proof -
  have o: "timers_owned s" by (rule reachable_owned [OF assms])
  then have "length (intervalTimers s) \<le> 1"
    and "list_all (\<lambda>t. timerRef s = Some (fst t)) (intervalTimers s)"
    by (simp_all add: timers_owned_def list_all_iff)
  moreover have "\<forall>b. map fst (intervalTimers (startMetronome b s)) = [Suc (lastHandle s)]"
    by (simp add: startMetronome_timers [OF o])
  moreover have "\<forall>sel. isPlaying s \<longrightarrow>
      map fst (intervalTimers (onTimeSignatureChange sel s)) = [Suc (lastHandle s)]"
    by (simp add: onTimeSignatureChange_timers [OF o])
  ultimately show ?thesis by blast
qed

theorem C2_witness:
  "reachable (run [ClickStartStop, TimeoutFires 1, SlideTempo 100, CommitTempo] initial) \<and>
   length (intervalTimers
     (run [ClickStartStop, TimeoutFires 1, SlideTempo 100, CommitTempo] initial)) \<le> 1 \<and>
   intervalTimers (run [ClickStartStop, TimeoutFires 1, SlideTempo 100, CommitTempo] initial) =
     [(3, Fin 600, 4)]"
proof -
  let ?s = "run [ClickStartStop, TimeoutFires 1, SlideTempo 100, CommitTempo] initial"
  have r: "reachable ?s" by (rule reachable_run [OF reachable_initial])
  have v: "intervalTimers ?s = [(3, Fin 600, 4)]" by code_simp
  from C2_at_most_one_live_timer [OF r] r v show ?thesis by blast
qed


section \<open>Tap-tempo estimates\<close>

lemma pushTap_gap:
  "tapTimes \<noteq> [] \<Longrightarrow> now - last tapTimes > 1000 \<Longrightarrow> pushTap now tapTimes = [now]"
  by (simp add: pushTap_def)

lemma averageInterval_2: "averageInterval [a, b] = b - a"
  by (simp add: averageInterval_def)

lemma averageInterval_3: "averageInterval [a, b, c] = ((b - a) + (c - b)) / 2"
  by (simp add: averageInterval_def upt_rec numeral_2_eq_2 numeral_3_eq_3)

lemma clampedTempo_range: "40 \<le> clampedTempo w \<and> clampedTempo w \<le> 800"
  by (simp add: clampedTempo_def js_min_def js_max_def js_round_def js_div_def)

lemma clampedTempo_finite:
  "averageInterval w \<noteq> 0 \<Longrightarrow>
     clampedTempo w = min (max (of_int \<lfloor>60000 / averageInterval w + 1 / 2\<rfloor>) 40) 800"
  by (simp add: clampedTempo_def js_min_def js_max_def js_round_def js_div_def)

lemma clampedTempo_integer: "of_int \<lfloor>clampedTempo w\<rfloor> = clampedTempo w"
  by (simp add: clampedTempo_def js_min_def js_max_def js_round_def js_div_def min_def max_def)

lemma clampedTempo_zero: "averageInterval w = 0 \<Longrightarrow> clampedTempo w = 800"
  by (simp add: clampedTempo_def js_min_def js_max_def js_round_def js_div_def)

lemma floor_241_half: "\<lfloor>241 / 2 :: rat\<rfloor> = 120"
  by (rule floor_unique) simp_all

lemma handleTapTempo_estimate:
  "snd (handleTapTempo now s) =
     (if truthy (winLockoutRef s) then None
      else if 2 \<le> length (pushTap now (tapTimesRef s))
           then Some (clampedTempo (pushTap now (tapTimesRef s))) else None)"
  by (simp add: handleTapTempo_def Let_def split: prod.splits)

lemma tapTimesRef_clearIfSet [simp]: "tapTimesRef (clearIfSet r s) = tapTimesRef s"
  by (simp add: clearIfSet_def clearTimer_def)

lemma tapTimesRef_setTimeout [simp]: "tapTimesRef (snd (setTimeout cb s)) = tapTimesRef s"
  by (simp add: setTimeout_def Let_def)

lemma tapTimesRef_celebrate [simp]: "tapTimesRef (celebrate s) = tapTimesRef s"
  by (simp add: celebrate_def Let_def case_prod_beta)

lemma winLockoutRef_clearIfSet [simp]: "winLockoutRef (clearIfSet r s) = winLockoutRef s"
  by (simp add: clearIfSet_def clearTimer_def)

lemma winLockoutRef_setTimeout [simp]: "winLockoutRef (snd (setTimeout cb s)) = winLockoutRef s"
  by (simp add: setTimeout_def Let_def)

lemma handleTapTempo_window:
  "\<not> truthy (winLockoutRef s) \<Longrightarrow>
     tapTimesRef (fst (handleTapTempo now s)) = pushTap now (tapTimesRef s)"
  by (simp add: handleTapTempo_def Let_def case_prod_beta)

lemma handleTapTempo_lockout:
  "\<not> truthy (winLockoutRef s) \<Longrightarrow>
   length (pushTap now (tapTimesRef s)) < 2 \<or> clampedTempo (pushTap now (tapTimesRef s)) < 550 \<Longrightarrow>
     winLockoutRef (fst (handleTapTempo now s)) = winLockoutRef s"
  by (auto simp add: handleTapTempo_def Let_def case_prod_beta)

lemma tapSequence_estimates:
  "snd (tapSequence (now # rest) s) =
     snd (handleTapTempo now s) #
     snd (tapSequence rest (syncRefs (winEffects s (fst (handleTapTempo now s)))))"
  by (simp add: case_prod_beta)

text \<open>
  C8: when the window is not empty and the new tap comes more than 1000 ms after its last
  entry (the lockout being inactive), the handler empties the window before it appends:
  the window is then the new tap alone, nothing else of the state changes, and the tap
  yields no estimate.
\<close>

theorem C8_gap_clears_window:
  assumes "tapTimesRef s \<noteq> []" and "now - last (tapTimesRef s) > 1000"
    and "\<not> truthy (winLockoutRef s)"
  shows "handleTapTempo now s = (s\<lparr>tapTimesRef := [now]\<rparr>, None)"
  using assms by (simp add: handleTapTempo_def pushTap_gap)

theorem C8_witness:
  "handleTapTempo 2000 (initial\<lparr>tapTimesRef := [0, 500]\<rparr>) =
     (initial\<lparr>tapTimesRef := [2000]\<rparr>, None)"
  using C8_gap_clears_window [of "initial\<lparr>tapTimesRef := [0, 500]\<rparr>" 2000]
  by (simp add: initial_def truthy_def)

text \<open>
  After such a tap one more tap within 1000 ms already yields an estimate, the window
  then holding two taps.
\<close>

lemma tap_after_gap_estimates:
  "\<not> truthy (winLockoutRef s) \<Longrightarrow> now' - now \<le> 1000 \<Longrightarrow>
     snd (handleTapTempo now' (s\<lparr>tapTimesRef := [now]\<rparr>)) = Some (clampedTempo [now, now'])"
  by (simp add: handleTapTempo_estimate pushTap_def)


section \<open>Taps and the win effect\<close>

lemma winEffect_tempo [simp]: "tempo (winEffect s) = tempo s"
  by (simp add: winEffect_def Let_def celebrate_def setTimeout_def clearIfSet_def clearTimer_def)

lemma winEffect_hasWon:
  "hasWon (winEffect s) =
     (if tempo s \<ge> 550 \<and> \<not> hasWon s then True else if tempo s < 550 then False else hasWon s)"
  by (simp add: winEffect_def Let_def celebrate_def setTimeout_def clearIfSet_def clearTimer_def)

lemma winEffect_tapTimesRef [simp]: "tapTimesRef (winEffect s) = tapTimesRef s"
  by (simp add: winEffect_def Let_def celebrate_def setTimeout_def clearIfSet_def clearTimer_def)

lemma winEffect_lockout:
  "\<not> (tempo s \<ge> 550 \<and> \<not> hasWon s) \<Longrightarrow> \<not> truthy (winLockoutRef (winEffect s))"
  by (auto simp: winEffect_def Let_def clearTimer_def truthy_def)

lemma winEffects_tapTimesRef [simp]: "tapTimesRef (winEffects prev s) = tapTimesRef s"
  by (simp add: winEffects_def Let_def)

lemma winEffects_lockout:
  assumes "winDeps s \<noteq> winDeps prev"
  shows "\<not> truthy (winLockoutRef (winEffects prev s))"
proof (cases "tempo s \<ge> 550 \<and> \<not> hasWon s")
  case True
  then have h: "hasWon (winEffect s)" "hasWon (winEffect s) \<noteq> hasWon s"
    by (simp_all add: winEffect_hasWon)
  then have "\<not> truthy (winLockoutRef (winEffect (winEffect s)))"
    by (intro winEffect_lockout) simp
  with assms h show ?thesis by (simp add: winEffects_def Let_def)
next
  case False
  then have l: "\<not> truthy (winLockoutRef (winEffect s))" by (rule winEffect_lockout)
  show ?thesis
  proof (cases "hasWon (winEffect s) = hasWon s")
    case True
    with assms l show ?thesis by (simp add: winEffects_def Let_def)
  next
    case c: False
    have "\<not> (tempo (winEffect s) \<ge> 550 \<and> \<not> hasWon (winEffect s))"
      using False c by (auto simp: winEffect_hasWon split: if_splits)
    then have "\<not> truthy (winLockoutRef (winEffect (winEffect s)))" by (rule winEffect_lockout)
    with assms c show ?thesis by (simp add: winEffects_def Let_def)
  qed
qed

lemma hasWon_clearIfSet [simp]: "hasWon (clearIfSet r s) = hasWon s"
  by (simp add: clearIfSet_def clearTimer_def)

lemma hasWon_setTimeout [simp]: "hasWon (snd (setTimeout cb s)) = hasWon s"
  by (simp add: setTimeout_def Let_def)

lemma hasWon_celebrate [simp]: "hasWon (celebrate s)"
  by (simp add: celebrate_def Let_def case_prod_beta)

lemma handleTapTempo_lockout_kept:
  "\<not> truthy (winLockoutRef s) \<Longrightarrow> hasWon (fst (handleTapTempo now s)) = hasWon s \<Longrightarrow>
     winLockoutRef (fst (handleTapTempo now s)) = winLockoutRef s"
  by (auto simp add: handleTapTempo_def Let_def case_prod_beta split: if_splits)

lemma tap_then_render:
  assumes "\<not> truthy (winLockoutRef s)"
  shows "tapTimesRef (syncRefs (winEffects s (fst (handleTapTempo now s)))) =
           pushTap now (tapTimesRef s)"
    and "\<not> truthy (winLockoutRef (syncRefs (winEffects s (fst (handleTapTempo now s)))))"
proof -
  let ?s1 = "fst (handleTapTempo now s)"
  show "tapTimesRef (syncRefs (winEffects s ?s1)) = pushTap now (tapTimesRef s)"
    using handleTapTempo_window [OF assms, of now] by (simp add: syncRefs_def)
  have "\<not> truthy (winLockoutRef (winEffects s ?s1))"
  proof (cases "winDeps ?s1 = winDeps s")
    case True
    then have "hasWon ?s1 = hasWon s" by (simp add: winDeps_def)
    from handleTapTempo_lockout_kept [OF assms this] True assms
    show ?thesis by (simp add: winEffects_def)
  next
    case False
    then show ?thesis by (rule winEffects_lockout)
  qed
  then show "\<not> truthy (winLockoutRef (syncRefs (winEffects s ?s1)))"
    by (simp add: syncRefs_def)
qed

lemma short_list_cases:
  assumes "length (w :: 'a list) \<le> 3"
  obtains "w = []" | a where "w = [a]" | a b where "w = [a, b]" | a b c where "w = [a, b, c]"
proof (cases w)
  case Nil
  then show ?thesis using that by simp
next
  case (Cons a w1)
  show ?thesis
  proof (cases w1)
    case Nil
    with Cons show ?thesis using that by simp
  next
    case (Cons b w2)
    note c2 = this
    show ?thesis
    proof (cases w2)
      case Nil
      with \<open>w = a # w1\<close> c2 show ?thesis using that by simp
    next
      case (Cons c w3)
      with \<open>w = a # w1\<close> c2 assms have "w = [a, b, c]" by simp
      then show ?thesis using that by simp
    qed
  qed
qed

lemma three_taps_window:
  assumes "length w \<le> 3"
  shows "pushTap (t + 1000) (pushTap (t + 500) (pushTap t w)) = [t, t + 500, t + 1000]"
  using assms by (cases w rule: short_list_cases) (simp_all add: pushTap_def)


lemma length_pushTap: "length w \<le> 3 \<Longrightarrow> length (pushTap now w) \<le> 3"
  by (simp add: pushTap_def Let_def)

lemma tapTimesRef_tick [simp]: "tapTimesRef (tick b s) = tapTimesRef s"
  by (simp add: tick_def playClick_def setCurrentBeat_def Let_def)

lemma tapTimesRef_startMetronome [simp]: "tapTimesRef (startMetronome b s) = tapTimesRef s"
  by (simp add: startMetronome_def setInterval_def Let_def)

lemma tapTimesRef_startStop [simp]: "tapTimesRef (startStop s) = tapTimesRef s"
  by (simp add: startStop_def Let_def setCurrentBeat_def ensureAudioContext_def case_prod_beta)

lemma tapTimesRef_selectTimeSignature [simp]:
  "tapTimesRef (selectTimeSignature sel s) = tapTimesRef s"
  by (simp add: selectTimeSignature_def onTimeSignatureChange_def Let_def setInterval_def
      setCurrentBeat_def syncRefs_def)

lemma tapTimesRef_fireTimeout [simp]: "tapTimesRef (fireTimeout h s) = tapTimesRef s"
  by (simp add: fireTimeout_def runCallback_def split: option.splits callback.splits)

lemma tapTimesRef_fireInterval [simp]: "tapTimesRef (fireInterval h s) = tapTimesRef s"
  by (simp add: fireInterval_def split: option.splits)

lemma tapTimesRef_handleTapTempo:
  "tapTimesRef (fst (handleTapTempo now s)) = tapTimesRef s \<or>
   tapTimesRef (fst (handleTapTempo now s)) = pushTap now (tapTimesRef s)"
  by (simp add: handleTapTempo_def Let_def case_prod_beta)

lemma step_window:
  assumes "length (tapTimesRef s) \<le> 3"
  shows "length (tapTimesRef (step e s)) \<le> 3"
proof (cases e)
  case (Tap now)
  with assms tapTimesRef_handleTapTempo [of now s] length_pushTap [OF assms, of now]
  show ?thesis by (auto simp: step_def syncRefs_def)
qed (use assms in \<open>simp_all add: step_def syncRefs_def isPlayingEffect_def onValueCommit_def
      onValueChange_def toggleAccent_def\<close>)

text \<open>The window never holds more than three taps.\<close>

lemma reachable_window: "reachable s \<Longrightarrow> length (tapTimesRef s) \<le> 3"
  by (induction rule: reachable.induct) (simp_all add: initial_def step_window)

lemma clampedTempo_120: "clampedTempo [t, t + 500, t + 1000] = 120"
  by (simp add: clampedTempo_def averageInterval_3 js_div_def js_round_def js_max_def
      js_min_def floor_241_half)

lemma clampedTempo_120_two: "clampedTempo [t, t + 500] = 120"
  by (simp add: clampedTempo_def averageInterval_2 js_div_def js_round_def js_max_def
      js_min_def floor_241_half)

text \<open>
  C7: three taps 500 ms apart, at \<open>t\<close>, \<open>t + 500\<close> and \<open>t + 1000\<close>, with the lockout
  inactive: whatever the window held before (at most three taps, as it always does), the
  window after the third tap is these three taps and the estimate is 120. From an empty
  window the three estimates are nothing, 120 and 120.
\<close>

theorem C7_three_taps_500ms_apart:
  assumes "\<not> truthy (winLockoutRef s)" and "length (tapTimesRef s) \<le> 3"
  shows "snd (tapSequence [t, t + 500, t + 1000] s) ! 2 = Some 120 \<and>
         length (snd (tapSequence [t, t + 500, t + 1000] s)) = 3 \<and>
         (tapTimesRef s = [] \<longrightarrow>
            snd (tapSequence [t, t + 500, t + 1000] s) = [None, Some 120, Some 120])"
proof -
  let ?s1 = "syncRefs (winEffects s (fst (handleTapTempo t s)))"
  let ?s2 = "syncRefs (winEffects ?s1 (fst (handleTapTempo (t + 500) ?s1)))"
  note r1 = tap_then_render [OF assms(1), of t]
  note r2 = tap_then_render [OF r1(2), of "t + 500"]
  have w3: "pushTap (t + 1000) (tapTimesRef ?s2) = [t, t + 500, t + 1000]"
    by (simp only: r2(1) r1(1) three_taps_window [OF assms(2)])
  have e3: "snd (handleTapTempo (t + 1000) ?s2) = Some 120"
    using r2(2) by (simp only: handleTapTempo_estimate w3) (simp add: clampedTempo_120)
  have l: "snd (tapSequence [t, t + 500, t + 1000] s) =
      [snd (handleTapTempo t s), snd (handleTapTempo (t + 500) ?s1), Some 120]"
    by (simp only: tapSequence_estimates e3) simp
  have e: "tapTimesRef s = [] \<Longrightarrow>
      snd (handleTapTempo t s) = None \<and> snd (handleTapTempo (t + 500) ?s1) = Some 120"
  proof -
    assume n: "tapTimesRef s = []"
    have w1: "pushTap t (tapTimesRef s) = [t]" by (simp add: n pushTap_def)
    have w2: "pushTap (t + 500) (tapTimesRef ?s1) = [t, t + 500]"
      by (simp only: r1(1) w1) (simp add: pushTap_def)
    have "snd (handleTapTempo t s) = None"
      using assms(1) by (simp only: handleTapTempo_estimate w1) simp
    moreover have "snd (handleTapTempo (t + 500) ?s1) = Some 120"
      using r1(2) by (simp only: handleTapTempo_estimate w2) (simp add: clampedTempo_120_two)
    ultimately show ?thesis by simp
  qed
  show ?thesis
    unfolding l using e by simp
qed

theorem C7_witness:
  "snd (tapSequence [0, 500, 1000] initial) = [None, Some 120, Some 120] \<and>
   snd (tapSequence [0, 500, 1000] (initial\<lparr>tapTimesRef := [-60, -30, -10]\<rparr>)) ! 2 = Some 120"
proof -
  have a: "\<not> truthy (winLockoutRef initial)" "length (tapTimesRef initial) \<le> 3"
    "tapTimesRef initial = []"
    by (simp_all add: initial_def truthy_def)
  have b: "\<not> truthy (winLockoutRef (initial\<lparr>tapTimesRef := [-60, -30, -10]\<rparr>))"
    "length (tapTimesRef (initial\<lparr>tapTimesRef := [-60, -30, -10]\<rparr>)) \<le> 3"
    by (simp_all add: initial_def truthy_def)
  from C7_three_taps_500ms_apart [OF a(1,2), of 0] a(3)
    C7_three_taps_500ms_apart [OF b, of 0]
  show ?thesis by simp
qed

section \<open>The estimate of a tap\<close>

lemma sum_consecutive_differences:
  "1 \<le> n \<Longrightarrow>
     foldl (\<lambda>a b. a + b) a0 (map (\<lambda>i. w ! i - w ! (i - 1)) [1..<n]) =
       a0 + (w ! (n - 1) - w ! 0 :: rat)"
proof (induction n)
  case 0
  then show ?case by simp
next
  case (Suc n)
  show ?case
  proof (cases "n = 0")
    case True
    then show ?thesis by simp
  next
    case False
    with Suc.IH show ?thesis by simp
  qed
qed

lemma averageInterval_ends:
  "2 \<le> length w \<Longrightarrow> averageInterval w = (last w - hd w) / of_nat (length w - 1)"
proof -
  assume a: "2 \<le> length w"
  then have ne: "w \<noteq> []" by auto
  have "foldl (\<lambda>a b. a + b) 0 (map (\<lambda>i. w ! i - w ! (i - 1)) [1..<length w]) =
      w ! (length w - 1) - w ! 0"
    using sum_consecutive_differences [of "length w" 0 w] a by simp
  then show ?thesis
    by (simp add: averageInterval_def last_conv_nth [OF ne] hd_conv_nth [OF ne])
qed

lemma foldl_add_sum_list: "foldl (\<lambda>a b. a + b) a0 xs = a0 + (sum_list xs :: rat)"
  by (induction xs arbitrary: a0) simp_all

lemma averageInterval_mean:
  "averageInterval w =
     (\<Sum>i\<leftarrow>[1..<length w]. w ! i - w ! (i - 1)) / of_nat (length w - 1)"
  by (simp add: averageInterval_def foldl_add_sum_list)

lemma pushTap_unfolded:
  "pushTap now w0 =
     (if length ((if w0 \<noteq> [] \<and> now - last w0 > 1000 then [] else w0) @ [now]) > 3
      then tl ((if w0 \<noteq> [] \<and> now - last w0 > 1000 then [] else w0) @ [now])
      else (if w0 \<noteq> [] \<and> now - last w0 > 1000 then [] else w0) @ [now])"
  by (simp add: pushTap_def Let_def)


text \<open>
  C9: let \<open>w\<close> be the window after the tap (the old window, emptied first when the tap
  comes more than 1000 ms after its last entry, with the tap appended and the oldest
  entry dropped when that makes more than three) and \<open>avg\<close> the mean of its consecutive
  differences, which is \<open>(last w - hd w) / (length w - 1)\<close>. With the lockout inactive
  the handler stores \<open>w\<close>; it yields nothing when \<open>w\<close> holds fewer than two taps, and
  otherwise yields \<open>min (max (round (60000 / avg)) 40) 800\<close>, rounding half up (800 when
  \<open>avg\<close> is 0 and the quotient infinite), a whole number in [40, 800] that it also stores
  as the tempo. Any other state with the same window and no lockout yields the same.
\<close>

theorem C9_estimate_when_two_taps:
  assumes "\<not> truthy (winLockoutRef s)"
    and "w1 = (if tapTimesRef s \<noteq> [] \<and> now - last (tapTimesRef s) > 1000 then []
               else tapTimesRef s) @ [now]"
    and "w = (if length w1 > 3 then tl w1 else w1)"
    and "avg = (last w - hd w) / of_nat (length w - 1)"
  shows "tapTimesRef (fst (handleTapTempo now s)) = w \<and>
         (length w < 2 \<longrightarrow> snd (handleTapTempo now s) = None) \<and>
         (2 \<le> length w \<and> avg \<noteq> 0 \<longrightarrow>
            snd (handleTapTempo now s) =
              Some (min (max (of_int \<lfloor>60000 / avg + 1 / 2\<rfloor>) 40) 800)) \<and>
         (2 \<le> length w \<and> avg = 0 \<longrightarrow> snd (handleTapTempo now s) = Some 800) \<and>
         (2 \<le> length w \<longrightarrow>
            avg = (\<Sum>i\<leftarrow>[1..<length w]. w ! i - w ! (i - 1)) / of_nat (length w - 1) \<and>
            (\<exists>r. snd (handleTapTempo now s) = Some r \<and> tempo (fst (handleTapTempo now s)) = r \<and>
                 40 \<le> r \<and> r \<le> 800 \<and> of_int \<lfloor>r\<rfloor> = r)) \<and>
         (\<forall>s'. \<not> truthy (winLockoutRef s') \<and> tapTimesRef s' = tapTimesRef s \<longrightarrow>
            snd (handleTapTempo now s') = snd (handleTapTempo now s))"
proof -
  have w: "pushTap now (tapTimesRef s) = w"
    unfolding assms(2,3) by (simp only: pushTap_unfolded)
  have a: "2 \<le> length w \<Longrightarrow> averageInterval w = avg"
    unfolding assms(4) by (rule averageInterval_ends)
  have m: "2 \<le> length w \<Longrightarrow>
      avg = (\<Sum>i\<leftarrow>[1..<length w]. w ! i - w ! (i - 1)) / of_nat (length w - 1)"
    using a by (simp only: averageInterval_mean [symmetric])
  have t: "2 \<le> length w \<Longrightarrow> tempo (fst (handleTapTempo now s)) = clampedTempo w"
    using assms(1) w
    by (simp add: handleTapTempo_def Let_def case_prod_beta celebrate_def setTimeout_def
        clearIfSet_def clearTimer_def)
  have e: "snd (handleTapTempo now s) = (if 2 \<le> length w then Some (clampedTempo w) else None)"
    using assms(1) by (simp add: handleTapTempo_estimate w)
  have c: "2 \<le> length w \<Longrightarrow> avg \<noteq> 0 \<Longrightarrow>
      clampedTempo w = min (max (of_int \<lfloor>60000 / avg + 1 / 2\<rfloor>) 40) 800"
    using a clampedTempo_finite [of w] by simp
  have z: "2 \<le> length w \<Longrightarrow> avg = 0 \<Longrightarrow> clampedTempo w = 800"
    using a clampedTempo_zero [of w] by simp
  have d: "\<forall>s'. \<not> truthy (winLockoutRef s') \<and> tapTimesRef s' = tapTimesRef s \<longrightarrow>
      snd (handleTapTempo now s') = snd (handleTapTempo now s)"
    using assms(1) by (simp add: handleTapTempo_estimate)
  have "tapTimesRef (fst (handleTapTempo now s)) = w"
    using handleTapTempo_window [OF assms(1), of now] w by simp
  moreover have "length w < 2 \<longrightarrow> snd (handleTapTempo now s) = None"
    by (simp add: e)
  moreover have "2 \<le> length w \<and> avg \<noteq> 0 \<longrightarrow>
      snd (handleTapTempo now s) = Some (min (max (of_int \<lfloor>60000 / avg + 1 / 2\<rfloor>) 40) 800)"
    using c by (simp add: e)
  moreover have "2 \<le> length w \<and> avg = 0 \<longrightarrow> snd (handleTapTempo now s) = Some 800"
    using z by (simp add: e)
  moreover have "2 \<le> length w \<longrightarrow>
      avg = (\<Sum>i\<leftarrow>[1..<length w]. w ! i - w ! (i - 1)) / of_nat (length w - 1) \<and>
      (\<exists>r. snd (handleTapTempo now s) = Some r \<and> tempo (fst (handleTapTempo now s)) = r \<and>
           40 \<le> r \<and> r \<le> 800 \<and> of_int \<lfloor>r\<rfloor> = r)"
    using m t by (simp add: e clampedTempo_range) (metis clampedTempo_integer)
  ultimately show ?thesis using d by blast
qed

theorem C9_witness:
  "snd (handleTapTempo 0 initial) = None \<and>
   snd (handleTapTempo 1000 (initial\<lparr>tapTimesRef := [0, 400]\<rparr>)) = Some 120 \<and>
   tapTimesRef (fst (handleTapTempo 1000 (initial\<lparr>tapTimesRef := [0, 400]\<rparr>))) = [0, 400, 1000]"
proof -
  have l: "\<not> truthy (winLockoutRef initial)"
    "\<not> truthy (winLockoutRef (initial\<lparr>tapTimesRef := [0, 400]\<rparr>))"
    by (simp_all add: initial_def truthy_def)
  have "snd (handleTapTempo 0 initial) = None"
    using C9_estimate_when_two_taps [OF l(1), of "[0]" 0 "[0]" 0]
    by (simp add: initial_def)
  moreover have "snd (handleTapTempo 1000 (initial\<lparr>tapTimesRef := [0, 400]\<rparr>)) = Some 120 \<and>
      tapTimesRef (fst (handleTapTempo 1000 (initial\<lparr>tapTimesRef := [0, 400]\<rparr>))) =
        [0, 400, 1000]"
    using C9_estimate_when_two_taps [OF l(2), of "[0, 400, 1000]" 1000 "[0, 400, 1000]" 500]
    by (simp add: initial_def floor_241_half)
  ultimately show ?thesis by simp
qed


section \<open>The tick interval\<close>


lemma ui_reachable_run: "ui_reachable s \<Longrightarrow> admissible_run es s \<Longrightarrow> ui_reachable (run es s)"
  unfolding run_def by (induction es arbitrary: s) (simp_all add: ui_step)

lemma tempo_clearIfSet [simp]: "tempo (clearIfSet r s) = tempo s"
  by (simp add: clearIfSet_def clearTimer_def)

lemma tempo_setTimeout [simp]: "tempo (snd (setTimeout cb s)) = tempo s"
  by (simp add: setTimeout_def Let_def)

lemma tempo_celebrate [simp]: "tempo (celebrate s) = tempo s"
  by (simp add: celebrate_def Let_def case_prod_beta)

lemma tempo_tick [simp]: "tempo (tick b s) = tempo s"
  by (simp add: tick_def playClick_def setCurrentBeat_def Let_def)

lemma tempo_startMetronome [simp]: "tempo (startMetronome b s) = tempo s"
  by (simp add: startMetronome_def setInterval_def Let_def)

lemma tempo_startStop [simp]: "tempo (startStop s) = tempo s"
  by (simp add: startStop_def Let_def setCurrentBeat_def ensureAudioContext_def case_prod_beta)

lemma tempo_selectTimeSignature [simp]: "tempo (selectTimeSignature sel s) = tempo s"
  by (simp add: selectTimeSignature_def onTimeSignatureChange_def Let_def setInterval_def
      setCurrentBeat_def syncRefs_def)

lemma tempo_fireTimeout [simp]: "tempo (fireTimeout h s) = tempo s"
  by (simp add: fireTimeout_def runCallback_def split: option.splits callback.splits)

lemma tempo_fireInterval [simp]: "tempo (fireInterval h s) = tempo s"
  by (simp add: fireInterval_def split: option.splits)









text \<open>
  Past 6000 beats a minute the time-signature handler would arm below 10 ms; no widget
  produces such a tempo.
\<close>

lemma time_signature_interval_beyond_6000:
  "timeSignature_intervalMs 10000 = Fin 6 \<and> startMetronome_intervalMs 10000 = Fin 10"
  by (simp add: timeSignature_interval_unfloored startMetronome_interval_floor js_div_def
      js_max_def)

section \<open>A delayed start after a time-signature change\<close>

text \<open>
  C3: a first start leaves a 500 ms timeout that will call the \<^verbatim>\<open>startMetronome\<close> of its
  own render, which holds the beat count 4. Selecting 3/4 before it fires and letting it
  fire gives a state the widgets can reach in which the signature has 3 beats and the
  live timer's callback advances modulo 4. A tick at cursor 2 there still sounds the
  click, then shows beat 2, and then moves the cursor to 3, not to (2 + 1) mod 3 = 0.
\<close>

theorem C3_stale_beat_count_in_tick:
  "ui_reachable
     (run [ClickStartStop, SelectSignature (SelSig 3 Den4), TimeoutFires 1, IntervalFires 3]
        initial) \<and>
   beats (timeSignature
     (run [ClickStartStop, SelectSignature (SelSig 3 Den4), TimeoutFires 1, IntervalFires 3]
        initial)) = 3 \<and>
   nextBeatRef
     (run [ClickStartStop, SelectSignature (SelSig 3 Den4), TimeoutFires 1, IntervalFires 3]
        initial) = Some 2 \<and>
   trace (fireInterval 3
     (run [ClickStartStop, SelectSignature (SelSig 3 Den4), TimeoutFires 1, IntervalFires 3]
        initial)) =
     trace
       (run [ClickStartStop, SelectSignature (SelSig 3 Den4), TimeoutFires 1, IntervalFires 3]
          initial) @ [Click 800 (7 / 20), SetCurrentBeat (Some 2)] \<and>
   nextBeatRef (fireInterval 3
     (run [ClickStartStop, SelectSignature (SelSig 3 Den4), TimeoutFires 1, IntervalFires 3]
        initial)) = Some 3"
proof -
  let ?es = "[ClickStartStop, SelectSignature (SelSig 3 Den4), TimeoutFires 1, IntervalFires 3]"
  have "admissible_run ?es initial" by code_simp
  then have "ui_reachable (run ?es initial)" by (rule ui_reachable_run [OF ui_initial])
  moreover have "beats (timeSignature (run ?es initial)) = 3" by code_simp
  moreover have "nextBeatRef (run ?es initial) = Some 2" by code_simp
  moreover have "trace (fireInterval 3 (run ?es initial)) =
      trace (run ?es initial) @ [Click 800 (7 / 20), SetCurrentBeat (Some 2)]"
    by code_simp
  moreover have "nextBeatRef (fireInterval 3 (run ?es initial)) = Some 3" by code_simp
  ultimately show ?thesis by simp
qed

text \<open>
  C5: the state after a first start is running and the widgets can reach it. Selecting
  3/4 there arms a timer that holds the new beat count 3, with the cursor at 0. The
  500 ms timeout of the start then fires: it cancels that timer and arms one whose
  callback holds the old beat count 4, and two ticks later the cursor is 3, which is no
  beat of 3/4.
\<close>

theorem C5_delayed_start_restores_old_beat_count:
  "ui_reachable (run [ClickStartStop] initial) \<and>
   isPlaying (run [ClickStartStop] initial) \<and>
   intervalTimers (run [ClickStartStop, SelectSignature (SelSig 3 Den4)] initial) =
     [(2, Fin 500, 3)] \<and>
   nextBeatRef (run [ClickStartStop, SelectSignature (SelSig 3 Den4)] initial) = Some 0 \<and>
   timeSignature (run [ClickStartStop, SelectSignature (SelSig 3 Den4), TimeoutFires 1] initial) =
     \<lparr> beats = 3, value' = V4 \<rparr> \<and>
   intervalTimers (run [ClickStartStop, SelectSignature (SelSig 3 Den4), TimeoutFires 1] initial) =
     [(3, Fin 500, 4)] \<and>
   nextBeatRef
     (run [ClickStartStop, SelectSignature (SelSig 3 Den4), TimeoutFires 1, IntervalFires 3,
           IntervalFires 3] initial) = Some 3"
proof -
  have "admissible_run [ClickStartStop] initial" by code_simp
  then have "ui_reachable (run [ClickStartStop] initial)"
    by (rule ui_reachable_run [OF ui_initial])
  moreover have "isPlaying (run [ClickStartStop] initial)" by code_simp
  moreover have "intervalTimers (run [ClickStartStop, SelectSignature (SelSig 3 Den4)] initial) =
      [(2, Fin 500, 3)]"
    by code_simp
  moreover have "nextBeatRef (run [ClickStartStop, SelectSignature (SelSig 3 Den4)] initial) =
      Some 0"
    by code_simp
  moreover have "timeSignature
      (run [ClickStartStop, SelectSignature (SelSig 3 Den4), TimeoutFires 1] initial) =
      \<lparr> beats = 3, value' = V4 \<rparr>"
    by code_simp
  moreover have "intervalTimers
      (run [ClickStartStop, SelectSignature (SelSig 3 Den4), TimeoutFires 1] initial) =
      [(3, Fin 500, 4)]"
    by code_simp
  moreover have "nextBeatRef
      (run [ClickStartStop, SelectSignature (SelSig 3 Den4), TimeoutFires 1, IntervalFires 3,
            IntervalFires 3] initial) = Some 3"
    by code_simp
  ultimately show ?thesis by simp
qed

end
